theory Spec2Isabelle
  imports Main "HOL-Library.Word"
begin

section \<open>Shared vocabulary: errors and time\<close>

text \<open>
  The Go packages signal failure with sentinel \<open>error\<close> values compared by identity.
  They are collected in one datatype; \<open>ErrOther\<close> stands for any error that is none of
  the sentinels (an upstream error, a context error), carrying its message.
\<close>

datatype error =
    ErrCircuitOpen
  | ErrTooManyRequests
  | ErrQueueFull
  | ErrQueueClosed
  | ErrAIUnavailable
  | ErrInvalidPrompt
  | ErrOther string

text \<open>
  A \<open>time.Time\<close> is an instant counted in nanoseconds from the Unix epoch, a
  \<open>time.Duration\<close> a number of nanoseconds held in an \<open>int64\<close>. \<open>Time.Sub\<close> saturates at
  the largest and smallest \<open>Duration\<close>; \<open>time.Since t\<close> is \<open>Now().Sub(t)\<close>, with the
  clock reading passed in explicitly.
\<close>

type_synonym Time = int
type_synonym Duration = int

definition Second :: Duration where
  "Second = 1000000000"

definition maxDuration :: Duration where
  "maxDuration = 2 ^ 63 - 1"

definition minDuration :: Duration where
  "minDuration = - (2 ^ 63)"

definition zeroTime :: Time where
  "zeroTime = - 62135596800 * 1000000000"

definition Sub :: "Time \<Rightarrow> Time \<Rightarrow> Duration" where
  "Sub t u =
     (let d = t - u
      in if d > maxDuration then maxDuration
         else if d < minDuration then minDuration
         else d)"

definition Since :: "Time \<Rightarrow> Time \<Rightarrow> Duration" where
  "Since now t = Sub now t"

section \<open>pkg/circuitbreaker\<close>

datatype State = StateClosed | StateOpen | StateHalfOpen

record CircuitBreaker =
  maxFailures :: int
  resetTimeout :: Duration
  halfOpenMaxReqs :: int
  state :: State
  failures :: int
  lastFailureTime :: Time
  halfOpenReqs :: int

record Config =
  MaxFailures :: int
  ResetTimeout :: Duration
  HalfOpenMaxReqs :: int

text \<open>
  The counters are Go \<open>int\<close>s (64 bits); they only ever grow by one per call, so they
  are modelled as unbounded integers.
\<close>

definition NewCircuitBreaker :: "Config \<Rightarrow> CircuitBreaker" where
  "NewCircuitBreaker config =
     (let config = (if MaxFailures config \<le> 0 then config\<lparr>MaxFailures := 5\<rparr> else config);
          config = (if ResetTimeout config \<le> 0
                    then config\<lparr>ResetTimeout := 60 * Second\<rparr> else config);
          config = (if HalfOpenMaxReqs config \<le> 0
                    then config\<lparr>HalfOpenMaxReqs := 1\<rparr> else config)
      in \<lparr> maxFailures = MaxFailures config,
           resetTimeout = ResetTimeout config,
           halfOpenMaxReqs = HalfOpenMaxReqs config,
           state = StateClosed,
           failures = 0,
           lastFailureTime = zeroTime,
           halfOpenReqs = 0 \<rparr>)"

text \<open>
  \<open>beforeRequest\<close> reads the clock once (\<open>now\<close>) in the open state. It returns the error
  (\<open>None\<close> for \<open>nil\<close>) and the breaker as it leaves it. The \<open>default\<close> branch of the Go
  switch is not reachable: no statement stores a fourth value in \<open>state\<close>.
\<close>

definition beforeRequest :: "CircuitBreaker \<Rightarrow> Time \<Rightarrow> error option \<times> CircuitBreaker" where
  "beforeRequest cb now =
     (case state cb of
        StateClosed \<Rightarrow> (None, cb)
      | StateOpen \<Rightarrow>
          if Since now (lastFailureTime cb) > resetTimeout cb
          then (None, cb\<lparr>state := StateHalfOpen, halfOpenReqs := 0\<rparr>)
          else (Some ErrCircuitOpen, cb)
      | StateHalfOpen \<Rightarrow>
          if halfOpenReqs cb \<ge> halfOpenMaxReqs cb
          then (Some ErrTooManyRequests, cb)
          else (None, cb\<lparr>halfOpenReqs := halfOpenReqs cb + 1\<rparr>))"

definition afterRequest :: "CircuitBreaker \<Rightarrow> error option \<Rightarrow> Time \<Rightarrow> CircuitBreaker" where
  "afterRequest cb err now =
     (if err \<noteq> None then
        (let cb = cb\<lparr>failures := failures cb + 1\<rparr>;
             cb = cb\<lparr>lastFailureTime := now\<rparr>
         in if state cb = StateHalfOpen then cb\<lparr>state := StateOpen\<rparr>
            else if failures cb \<ge> maxFailures cb then cb\<lparr>state := StateOpen\<rparr>
            else cb)
      else
        (if state cb = StateHalfOpen
         then cb\<lparr>state := StateClosed, failures := 0, halfOpenReqs := 0\<rparr>
         else if state cb = StateClosed then cb\<lparr>failures := 0\<rparr>
         else cb))"

text \<open>
  \<open>Execute\<close> runs \<open>fn\<close> between the two bookkeeping calls. The protected function acts
  on a world \<open>'w\<close> of its own and returns its error; \<open>t0\<close> is the clock reading taken by
  \<open>beforeRequest\<close>, \<open>t1\<close> the one taken by \<open>afterRequest\<close>. The result is the returned
  error, the breaker and the world afterwards. A protected function that panics is not
  modelled: \<open>Execute\<close> has no recovery of its own.
\<close>

definition Execute ::
  "CircuitBreaker \<Rightarrow> Time \<Rightarrow> ('w \<Rightarrow> error option \<times> 'w) \<Rightarrow> Time \<Rightarrow> 'w
     \<Rightarrow> error option \<times> CircuitBreaker \<times> 'w" where
  "Execute cb t0 fn t1 w =
     (case beforeRequest cb t0 of
        (Some err, cb') \<Rightarrow> (Some err, cb', w)
      | (None, cb') \<Rightarrow>
          (case fn w of (err, w') \<Rightarrow> (err, afterRequest cb' err t1, w')))"

definition Reset :: "CircuitBreaker \<Rightarrow> CircuitBreaker" where
  "Reset cb = cb\<lparr>state := StateClosed, failures := 0, halfOpenReqs := 0\<rparr>"

text \<open>A run of \<open>Execute\<close> calls, each with its clock readings and its protected function.\<close>

type_synonym 'w call = "Time \<times> ('w \<Rightarrow> error option \<times> 'w) \<times> Time"

fun ExecuteAll :: "CircuitBreaker \<Rightarrow> 'w \<Rightarrow> 'w call list \<Rightarrow> CircuitBreaker \<times> 'w" where
  "ExecuteAll cb w [] = (cb, w)"
| "ExecuteAll cb w ((t0, fn, t1) # cs) =
     (case Execute cb t0 fn t1 w of (err, cb', w') \<Rightarrow> ExecuteAll cb' w' cs)"

definition fails :: "('w \<Rightarrow> error option \<times> 'w) \<Rightarrow> bool" where
  "fails fn = (\<forall>w. fst (fn w) \<noteq> None)"

section \<open>pkg/middleware: the sliding-window ingress limiter\<close>

text \<open>
  The limiter keeps, for every identifier, the slice of instants of its admitted
  requests. The Go map holds pointers to \<open>userRequests\<close>; the model maps the identifier
  to the slice itself. \<open>Time.Add\<close> and \<open>Time.After\<close> are addition and \<open>>\<close> on instants;
  the unary minus on a \<open>Duration\<close> is the \<open>int64\<close> one, which maps the smallest value to
  itself.
\<close>

record RateLimiter =
  requests :: "string \<rightharpoonup> Time list"
  limit :: int
  window :: Duration

definition NewRateLimiter :: "int \<Rightarrow> Duration \<Rightarrow> RateLimiter" where
  "NewRateLimiter lim win = \<lparr> requests = Map.empty, limit = lim, window = win \<rparr>"

definition neg64 :: "Duration \<Rightarrow> Duration" where
  "neg64 d = (if d = minDuration then minDuration else - d)"

definition Add :: "Time \<Rightarrow> Duration \<Rightarrow> Time" where
  "Add t d = t + d"

definition After :: "Time \<Rightarrow> Time \<Rightarrow> bool" where
  "After t u = (t > u)"

definition timestamps :: "RateLimiter \<Rightarrow> string \<Rightarrow> Time list" where
  "timestamps rl identifier =
     (case requests rl identifier of None \<Rightarrow> [] | Some ts \<Rightarrow> ts)"

definition allow :: "RateLimiter \<Rightarrow> string \<Rightarrow> Time \<Rightarrow> bool \<times> RateLimiter" where
  "allow rl identifier now =
     (let userReq = timestamps rl identifier;
          windowStart = Add now (neg64 (window rl));
          validTimestamps = filter (\<lambda>ts. After ts windowStart) userReq
      in if int (length validTimestamps) \<ge> limit rl
         then (False, rl\<lparr>requests := (requests rl)(identifier \<mapsto> validTimestamps)\<rparr>)
         else (True,
               rl\<lparr>requests := (requests rl)(identifier \<mapsto> validTimestamps @ [now])\<rparr>))"

section \<open>pkg/queue: the bounded request queue\<close>

text \<open>
  A request carries its id, its payload, the error of its context as the worker will
  find it (\<open>None\<close> while the context is live) and the instant it was enqueued. Its
  one-slot result channel is not part of the state: \<open>processRequest\<close> returns the
  \<open>Result\<close> it sends.
\<close>

record 'a Request =
  ID :: string
  Data :: 'a
  Context :: "error option"
  EnqueueAt :: Time

datatype 'b Result = Result "'b option" "error option"

text \<open>A processor returns a value (possibly \<open>nil\<close>) and an error, or panics.\<close>

datatype 'b outcome = Returned "'b option" "error option" | Panicked

text \<open>
  \<open>queue\<close> is the content of the buffered channel, oldest first, and \<open>capacity\<close> its
  \<open>cap\<close>. \<open>inFlight\<close> holds the requests a worker has received and not yet accounted
  for: the \<open>req\<close> variables of the worker goroutines. \<open>closed\<close> stands for the flag and
  for the closed channel, which \<open>Stop\<close> sets together.
\<close>

record ('a, 'b) RequestQueue =
  queue :: "'a Request list"
  capacity :: int
  processor :: "'a \<Rightarrow> 'b outcome"
  workers :: int
  closed :: bool
  totalEnqueued :: int
  totalProcessed :: int
  totalFailed :: int
  totalDropped :: int
  inFlight :: "'a Request list"

record ('a, 'b) QueueConfig =
  QueueSize :: int
  Workers :: int
  Processor :: "('a \<Rightarrow> 'b outcome) option"

text \<open>\<open>NewRequestQueue\<close> panics on a \<open>nil\<close> processor: the result \<open>None\<close>.\<close>

definition NewRequestQueue :: "('a, 'b) QueueConfig \<Rightarrow> ('a, 'b) RequestQueue option" where
  "NewRequestQueue config =
     (let size = (if QueueSize config \<le> 0 then 1000 else QueueSize config);
          wrk = (if Workers config \<le> 0 then 10 else Workers config)
      in case Processor config of
           None \<Rightarrow> None
         | Some p \<Rightarrow>
             Some \<lparr> queue = [], capacity = size, processor = p, workers = wrk,
                    closed = False, totalEnqueued = 0, totalProcessed = 0,
                    totalFailed = 0, totalDropped = 0, inFlight = [] \<rparr>)"

text \<open>
  \<open>Enqueue\<close> makes one non-blocking offer to the channel: the \<open>select\<close> takes the send
  when the buffer has room and the \<open>default\<close> branch otherwise.
\<close>

definition Enqueue ::
  "('a, 'b) RequestQueue \<Rightarrow> 'a Request \<Rightarrow> error option \<times> ('a, 'b) RequestQueue" where
  "Enqueue q req =
     (if closed q then (Some ErrQueueClosed, q)
      else if int (length (queue q)) < capacity q
      then (None, q\<lparr>queue := queue q @ [req], totalEnqueued := totalEnqueued q + 1\<rparr>)
      else (Some ErrQueueFull, q\<lparr>totalDropped := totalDropped q + 1\<rparr>))"

text \<open>A worker's receive takes the oldest request off the channel.\<close>

definition receive :: "('a, 'b) RequestQueue \<Rightarrow> ('a, 'b) RequestQueue" where
  "receive q =
     (case queue q of
        [] \<Rightarrow> q
      | req # rest \<Rightarrow> q\<lparr>queue := rest, inFlight := inFlight q @ [req]\<rparr>)"

definition processRequest ::
  "('a, 'b) RequestQueue \<Rightarrow> 'a Request \<Rightarrow> ('a, 'b) RequestQueue \<times> 'b Result" where
  "processRequest q req =
     (if Context req \<noteq> None
      then (q\<lparr>totalFailed := totalFailed q + 1\<rparr>, Result None (Context req))
      else
        (case processor q (Data req) of
           Panicked \<Rightarrow>
             (q\<lparr>totalFailed := totalFailed q + 1\<rparr>,
              Result None (Some (ErrOther ''internal error processing request'')))
         | Returned result err \<Rightarrow>
             ((if err \<noteq> None then q\<lparr>totalFailed := totalFailed q + 1\<rparr>
               else q\<lparr>totalProcessed := totalProcessed q + 1\<rparr>),
              Result result err)))"

text \<open>The worker holding the \<open>i\<close>-th request in flight processes it and lets it go.\<close>

definition complete :: "('a, 'b) RequestQueue \<Rightarrow> nat \<Rightarrow> ('a, 'b) RequestQueue" where
  "complete q i =
     (if i < length (inFlight q)
      then (case processRequest q (inFlight q ! i) of
              (q', res) \<Rightarrow> q'\<lparr>inFlight := take i (inFlight q) @ drop (Suc i) (inFlight q)\<rparr>)
      else q)"

text \<open>
  \<open>Stop\<close> marks the queue closed and closes the channel; the workers drain what is left.
  Its wait for the workers and its return value play no part in the state.
\<close>

definition Stop :: "('a, 'b) RequestQueue \<Rightarrow> ('a, 'b) RequestQueue" where
  "Stop q = (if closed q then q else q\<lparr>closed := True\<rparr>)"

definition QueueSize_of :: "('a, 'b) RequestQueue \<Rightarrow> int" where
  "QueueSize_of q = int (length (queue q))"

text \<open>Queue operations, and a run of them in order.\<close>

datatype 'a op = OpEnqueue "'a Request" | OpReceive | OpComplete nat | OpStop

fun step :: "('a, 'b) RequestQueue \<Rightarrow> 'a op \<Rightarrow> ('a, 'b) RequestQueue" where
  "step q (OpEnqueue req) = snd (Enqueue q req)"
| "step q OpReceive = receive q"
| "step q (OpComplete i) = complete q i"
| "step q OpStop = Stop q"

definition run :: "('a, 'b) RequestQueue \<Rightarrow> 'a op list \<Rightarrow> ('a, 'b) RequestQueue" where
  "run q ops = foldl step q ops"

section \<open>pkg/response and the AI chat handler\<close>

record APIResponse =
  status :: int
  success :: bool
  message :: string
  data :: "(string \<times> string) list"
  error_code :: "string option"

definition StatusOK :: int where "StatusOK = 200"
definition StatusBadRequest :: int where "StatusBadRequest = 400"
definition StatusRequestTimeout :: int where "StatusRequestTimeout = 408"
definition StatusTooManyRequests :: int where "StatusTooManyRequests = 429"
definition StatusInternalServerError :: int where "StatusInternalServerError = 500"
definition StatusServiceUnavailable :: int where "StatusServiceUnavailable = 503"

definition Success :: "string \<Rightarrow> (string \<times> string) list \<Rightarrow> APIResponse" where
  "Success msg d =
     \<lparr> status = StatusOK, success = True, message = msg, data = d, error_code = None \<rparr>"

definition BadRequest :: "string \<Rightarrow> APIResponse" where
  "BadRequest msg =
     \<lparr> status = StatusBadRequest, success = False, message = msg, data = [],
       error_code = Some ''BAD_REQUEST'' \<rparr>"

definition InternalServerError :: "string \<Rightarrow> APIResponse" where
  "InternalServerError msg =
     \<lparr> status = StatusInternalServerError, success = False, message = msg, data = [],
       error_code = Some ''INTERNAL_SERVER_ERROR'' \<rparr>"

text \<open>
  What the handler's \<open>select\<close> sees first: a result on the reply channel, or the end of
  its 60-second deadline.
\<close>

datatype 'b wait = Received "'b Result" | Deadline

text \<open>
  The handler either writes a response or panics (the unchecked type assertion on a
  result without error whose data is not a string).
\<close>

datatype handled = Responded APIResponse | HandlerPanic

text \<open>
  \<open>AIHandler.GenerateChatResponse\<close>: \<open>body\<close> is the parsed request (\<open>None\<close> when
  \<open>BodyParser\<close> fails), \<open>requestID\<close> the fresh id, \<open>ctx\<close> the error of the request
  context, \<open>now\<close> the clock.
\<close>

definition AIHandler_GenerateChatResponse ::
  "(string \<times> string, string) RequestQueue \<Rightarrow> (string \<times> string) option \<Rightarrow> string
     \<Rightarrow> error option \<Rightarrow> Time \<Rightarrow> string wait
     \<Rightarrow> handled \<times> (string \<times> string, string) RequestQueue" where
  "AIHandler_GenerateChatResponse q body requestID ctx now w =
     (case body of
        None \<Rightarrow> (Responded (BadRequest ''Invalid request body''), q)
      | Some requestData \<Rightarrow>
          (let queueReq = \<lparr> ID = requestID, Data = requestData, Context = ctx,
                            EnqueueAt = now \<rparr>
           in case Enqueue q queueReq of
                (Some err, q') \<Rightarrow>
                  if err = ErrQueueFull
                  then (Responded \<lparr> status = StatusTooManyRequests, success = False,
                          message = ''Server is busy, please try again later'', data = [],
                          error_code = None \<rparr>, q')
                  else (Responded (InternalServerError ''Failed to process request''), q')
              | (None, q') \<Rightarrow>
                  (case w of
                     Received (Result d e) \<Rightarrow>
                       if e \<noteq> None then
                         (case d of
                            Some aiResponse \<Rightarrow>
                              if aiResponse \<noteq> []
                              then (Responded (Success ''AI response generated (fallback)''
                                      [(''response'', aiResponse)]), q')
                              else (Responded
                                      (InternalServerError ''Failed to generate AI response''), q')
                          | None \<Rightarrow>
                              (Responded
                                 (InternalServerError ''Failed to generate AI response''), q'))
                       else
                         (case d of
                            Some aiResponse \<Rightarrow>
                              (Responded (Success ''AI response generated''
                                 [(''response'', aiResponse)]), q')
                          | None \<Rightarrow> (HandlerPanic, q'))
                   | Deadline \<Rightarrow>
                       (Responded \<lparr> status = StatusRequestTimeout, success = False,
                          message = ''Request timeout - please try again'', data = [],
                          error_code = None \<rparr>, q'))))"

section \<open>services/ai-service/client: the AI caller\<close>

text \<open>
  The provider client is outside the repository. It is an oracle: given the number of
  the attempt, the model name and the prompt, \<open>Models.GenerateContent\<close> under the
  attempt's context either fails with an error or yields a response, of which the caller
  reads \<open>result.Text()\<close>.
\<close>

type_synonym upstream = "int \<Rightarrow> string \<Rightarrow> string \<Rightarrow> error + string"

record GeminiClient =
  model :: string
  maxRetries :: int
  baseDelay :: Duration

text \<open>\<open>NewGeminiClient\<close>, given what \<open>genai.NewClient\<close> returned.\<close>

definition NewGeminiClient :: "error option \<Rightarrow> error + GeminiClient" where
  "NewGeminiClient err =
     (case err of
        Some e \<Rightarrow> Inl (ErrOther ''failed to create Gemini client'')
      | None \<Rightarrow>
          Inr \<lparr> model = ''gemini-2.0-flash-exp'', maxRetries = 3, baseDelay = Second \<rparr>)"

text \<open>
  What \<open>GenerateContent\<close> does besides returning: it sleeps, and it calls the provider
  under a context with a timeout, with a model name and a prompt. Logging is left out.
\<close>

datatype effect = Sleep Duration | ProviderCall Duration string string

text \<open>
  The delay before attempt \<open>attempt > 0\<close> is
  \<open>c.baseDelay * time.Duration(1<<uint(attempt-1))\<close>, computed in \<open>int64\<close>.
\<close>

definition delay :: "GeminiClient \<Rightarrow> int \<Rightarrow> Duration" where
  "delay c attempt =
     sint (word_of_int (baseDelay c) * push_bit (nat (attempt - 1)) (1 :: 64 word))"

function retryLoop ::
  "GeminiClient \<Rightarrow> upstream \<Rightarrow> string \<Rightarrow> int \<Rightarrow> (string \<times> error option) \<times> effect list" where
  "retryLoop c up prompt attempt =
     (if attempt < maxRetries c then
        (let pre = (if attempt > 0 then [Sleep (delay c attempt)] else [])
                   @ [ProviderCall (30 * Second) (model c) prompt]
         in case up attempt (model c) prompt of
              Inr text \<Rightarrow> ((text, None), pre)
            | Inl err \<Rightarrow>
                (case retryLoop c up prompt (attempt + 1) of
                   (res, es) \<Rightarrow> (res, pre @ es)))
      else (([], Some ErrAIUnavailable), []))"
  by pat_completeness auto
termination
  by (relation "measure (\<lambda>(c, up, prompt, attempt). nat (maxRetries c - attempt))") auto

definition GenerateContent ::
  "GeminiClient \<Rightarrow> upstream \<Rightarrow> string \<Rightarrow> (string \<times> error option) \<times> effect list" where
  "GenerateContent c up prompt =
     (if prompt = [] then (([], Some ErrInvalidPrompt), [])
      else retryLoop c up prompt 0)"

definition nl :: string where
  "nl = [CHR 0x0A]"

definition zodiacTraits :: "(string \<times> string) list" where
  "zodiacTraits =
    [
     (''Aries'',
       ''passionate, confident, determined, and courageous''),
     (''Taurus'',
       ''reliable, patient, devoted, and practical''),
     (''Gemini'',
       ''adaptable, outgoing, intelligent, and curious''),
     (''Cancer'',
       ''intuitive, emotional, protective, and nurturing''),
     (''Leo'',
       ''creative, passionate, generous, and warm-hearted''),
     (''Virgo'',
       ''loyal, analytical, hardworking, and practical''),
     (''Libra'',
       ''diplomatic, gracious, fair-minded, and social''),
     (''Scorpio'',
       ''resourceful, brave, passionate, and determined''),
     (''Sagittarius'',
       ''generous, idealistic, great sense of humor, and adventurous''),
     (''Capricorn'',
       ''responsible, disciplined, self-controlled, and ambitious''),
     (''Aquarius'',
       ''progressive, original, independent, and humanitarian''),
     (''Pisces'',
       ''compassionate, artistic, intuitive, and gentle'')
    ]"

definition getZodiacTraits :: "string \<Rightarrow> string" where
  "getZodiacTraits sign =
     (case map_of zodiacTraits sign of
        Some trait \<Rightarrow> trait
      | None \<Rightarrow> ''empathetic and understanding'')"

definition buildChatPrompt :: "string \<Rightarrow> string \<Rightarrow> string" where
  "buildChatPrompt zodiacSign userMessage =
     (let traits = getZodiacTraits zodiacSign
      in
        ''Kamu adalah AI companion yang ramah dan bisa diajak ngobrol santai.'' @ nl @
        ''Kamu punya sedikit karakteristik zodiak '' @ zodiacSign @ '' ('' @ traits @
        ''), tapi jangan terlalu berlebihan atau alay.'' @ nl @ nl @
        ''Respon dengan natural seperti teman yang ngobrol biasa:'' @ nl @
        ''- Jangan terlalu formal atau kaku'' @ nl @
        ''- Jangan terlalu dramatis atau puitis'' @ nl @
        ''- Fokus pada apa yang user tanyakan/ceritakan'' @ nl @
        ''- Kasih respon yang relevan dengan pesan mereka'' @ nl @
        ''- Boleh santai tapi tetap supportive'' @ nl @ nl @ ''Pesan user: '' @ userMessage @
        nl @ nl @ ''Respon dalam bahasa Indonesia yang natural dan casual (max 100 kata).'')"

definition buildInsightPrompt :: "string \<Rightarrow> string" where
  "buildInsightPrompt chatHistory =
     ''Analyze this conversation and extract a profound life lesson or insight.'' @ nl @
     ''Create a short, inspirational message (max 200 words) that could help others facing similar situations.'' @
     nl @ nl @ ''Conversation:'' @ nl @ chatHistory @ nl @ nl @
     ''Generate a wisdom-filled insight that:'' @ nl @
     ''1. Identifies the core emotional theme'' @ nl @ ''2. Offers a universal life lesson'' @
     nl @ ''3. Provides hope and encouragement'' @ nl @ ''4. Is relatable to others'' @ nl @
     nl @
     ''Format: A single paragraph of wisdom in Bahasa Indonesia. Make it profound and shareable.''"

definition fallbacks :: "(string \<times> string) list" where
  "fallbacks =
    [
     (''Aries'',
       ''Halo! Maaf nih, lagi ada gangguan sebentar. Tapi aku di sini kok, siap dengerin kamu.''),
     (''Taurus'',
       ''Hai! Ada yang bisa aku bantu? Cerita aja, aku dengerin.''),
     (''Gemini'',
       ''Halo! Gimana kabarnya? Ada yang mau diobrolin?''),
     (''Cancer'',
       ''Hai! Aku di sini kalau kamu mau cerita atau butuh temen ngobrol.''),
     (''Leo'',
       ''Halo! Ada yang bisa aku bantu hari ini?''),
     (''Virgo'',
       ''Hai! Cerita aja kalau ada yang mau dibahas, aku siap dengerin.''),
     (''Libra'',
       ''Halo! Gimana hari ini? Ada yang mau diceritain?''),
     (''Scorpio'',
       ''Hai! Aku di sini kalau kamu butuh temen ngobrol.''),
     (''Sagittarius'',
       ''Halo! Ada yang mau dibahas? Cerita aja santai.''),
     (''Capricorn'',
       ''Hai! Gimana kabarnya? Aku siap dengerin kalau ada yang mau diceritain.''),
     (''Aquarius'',
       ''Halo! Ada yang bisa aku bantu? Ngobrol aja santai.''),
     (''Pisces'',
       ''Hai! Aku di sini kalau kamu butuh temen cerita.'')
    ]"

definition getFallbackChatResponse :: "string \<Rightarrow> string" where
  "getFallbackChatResponse zodiacSign =
     (case map_of fallbacks zodiacSign of
        Some response \<Rightarrow> response
      | None \<Rightarrow> ''Halo! Ada yang bisa aku bantu? Cerita aja santai.'')"

definition getFallbackInsight :: string where
  "getFallbackInsight =
     ''Setiap percakapan adalah cerminan dari perjalanan hidup kita. Dalam berbagi cerita dan perasaan, kita menemukan kekuatan untuk terus maju. Ingatlah bahwa setiap tantangan adalah kesempatan untuk tumbuh, dan setiap emosi yang kita rasakan adalah bagian dari kemanusiaan kita. Teruslah berbicara, teruslah berbagi, dan teruslah percaya bahwa hari esok membawa harapan baru.''"

definition GenerateChatResponse ::
  "GeminiClient \<Rightarrow> upstream \<Rightarrow> string \<Rightarrow> string \<Rightarrow> (string \<times> error option) \<times> effect list" where
  "GenerateChatResponse c up zodiacSign userMessage =
     (let prompt = buildChatPrompt zodiacSign userMessage
      in case GenerateContent c up prompt of
           ((response, err), es) \<Rightarrow>
             if err \<noteq> None then ((getFallbackChatResponse zodiacSign, None), es)
             else ((response, None), es))"

definition GenerateInsight ::
  "GeminiClient \<Rightarrow> upstream \<Rightarrow> string \<Rightarrow> (string \<times> error option) \<times> effect list" where
  "GenerateInsight c up chatHistory =
     (let prompt = buildInsightPrompt chatHistory
      in case GenerateContent c up prompt of
           ((response, err), es) \<Rightarrow>
             if err \<noteq> None then ((getFallbackInsight, None), es)
             else ((response, None), es))"

text \<open>The twelve zodiac tags of \<open>pkg/utils\<close>.\<close>

definition zodiacSigns :: "string list" where
  "zodiacSigns =
     [''Aries'', ''Taurus'', ''Gemini'', ''Cancer'', ''Leo'', ''Virgo'', ''Libra'',
      ''Scorpio'', ''Sagittarius'', ''Capricorn'', ''Aquarius'', ''Pisces'']"

section \<open>Observations and example data\<close>

text \<open>The status code of what the handler wrote, if it wrote a response.\<close>

definition response_status :: "handled \<Rightarrow> int option" where
  "response_status h = (case h of Responded r \<Rightarrow> Some (status r) | HandlerPanic \<Rightarrow> None)"

text \<open>The sleeps of a run of effects, in order, and the number of its provider calls.\<close>

definition sleeps :: "effect list \<Rightarrow> Duration list" where
  "sleeps es = concat (map (\<lambda>e. case e of Sleep d \<Rightarrow> [d] | ProviderCall t m p \<Rightarrow> []) es)"

definition attempts :: "effect list \<Rightarrow> nat" where
  "attempts es =
     length (filter (\<lambda>e. case e of Sleep d \<Rightarrow> False | ProviderCall t m p \<Rightarrow> True) es)"

text \<open>
  The client that \<open>NewGeminiClient\<close> builds, a provider that fails every call, and one that
  answers every call with an empty text and no error.
\<close>

definition client :: GeminiClient where
  "client = \<lparr> model = ''gemini-2.0-flash-exp'', maxRetries = 3, baseDelay = Second \<rparr>"

definition down :: upstream where
  "down attempt m p = Inl (ErrOther ''unavailable'')"

definition blank :: upstream where
  "blank attempt m p = Inr []"

text \<open>
  A queue as \<open>NewRequestQueue\<close> leaves it, with ten workers; two processors that succeed;
  a request with a live context.
\<close>

definition freshQueue :: "('a \<Rightarrow> 'b outcome) \<Rightarrow> int \<Rightarrow> ('a, 'b) RequestQueue" where
  "freshQueue p n =
     \<lparr> queue = [], capacity = n, processor = p, workers = 10, closed = False,
       totalEnqueued = 0, totalProcessed = 0, totalFailed = 0, totalDropped = 0,
       inFlight = [] \<rparr>"

definition echo :: "string \<Rightarrow> string outcome" where
  "echo d = Returned (Some d) None"

definition reply :: "string \<times> string \<Rightarrow> string outcome" where
  "reply d = Returned (Some (snd d)) None"

definition request :: "string \<Rightarrow> string Request" where
  "request i = \<lparr> ID = i, Data = ''hi'', Context = None, EnqueueAt = 0 \<rparr>"

section \<open>Theorems: the circuit breaker\<close>

lemma failsD: "fails fn \<Longrightarrow> \<exists>e w'. fn w = (Some e, w')"
  unfolding fails_def by (metis not_Some_eq prod.collapse)

lemma Execute_failing_Open:
  assumes "state cb = StateOpen" "fails fn"
  shows "state (fst (snd (Execute cb t0 fn t1 w))) = StateOpen"
proof -
  from failsD [OF assms(2)] obtain e w' where "fn w = (Some e, w')" by blast
  with assms(1) show ?thesis
    by (simp add: Execute_def beforeRequest_def afterRequest_def Let_def)
qed

lemma Execute_failing_Closed:
  assumes "state cb = StateClosed" "fails fn" "Execute cb t0 fn t1 w = (err, cb', w')"
  shows "failures cb' = failures cb + 1 \<and> maxFailures cb' = maxFailures cb \<and>
   state cb' = (if failures cb + 1 \<ge> maxFailures cb then StateOpen else StateClosed)"
proof -
  from failsD [OF assms(2)] obtain e v where "fn w = (Some e, v)" by blast
  with assms(1,3) show ?thesis
    by (auto simp: Execute_def beforeRequest_def afterRequest_def Let_def)
qed

lemma ExecuteAll_failing_Open:
  "state cb = StateOpen \<Longrightarrow> \<forall>c \<in> set cs. fails (fst (snd c)) \<Longrightarrow>
   state (fst (ExecuteAll cb w cs)) = StateOpen"
proof (induction cs arbitrary: cb w)
  case Nil
  then show ?case by simp
next
  case (Cons c cs)
  obtain t0 fn t1 where c: "c = (t0, fn, t1)" by (cases c) auto
  obtain err cb' w' where e: "Execute cb t0 fn t1 w = (err, cb', w')"
    by (cases "Execute cb t0 fn t1 w") auto
  from Cons.prems c have f: "fails fn" by simp
  have "state cb' = StateOpen"
    using Execute_failing_Open [OF Cons.prems(1) f, of t0 t1 w] e by simp
  moreover have "\<forall>c \<in> set cs. fails (fst (snd c))" using Cons.prems(2) by simp
  ultimately have "state (fst (ExecuteAll cb' w' cs)) = StateOpen" by (rule Cons.IH)
  then show ?case using c e by simp
qed

lemma ExecuteAll_failing_Closed:
  "state cb = StateClosed \<Longrightarrow> \<forall>c \<in> set cs. fails (fst (snd c)) \<Longrightarrow> cs \<noteq> [] \<Longrightarrow>
   maxFailures cb \<le> failures cb + int (length cs) \<Longrightarrow>
   state (fst (ExecuteAll cb w cs)) = StateOpen"
proof (induction cs arbitrary: cb w)
  case Nil
  then show ?case by simp
next
  case (Cons c cs)
  obtain t0 fn t1 where c: "c = (t0, fn, t1)" by (cases c) auto
  obtain err cb' w' where e: "Execute cb t0 fn t1 w = (err, cb', w')"
    by (cases "Execute cb t0 fn t1 w") auto
  from Cons.prems c have f: "fails fn" by simp
  note st = Execute_failing_Closed [OF Cons.prems(1) f e]
  show ?case
  proof (cases "failures cb + 1 \<ge> maxFailures cb")
    case True
    with st have "state cb' = StateOpen" by simp
    moreover have "\<forall>c \<in> set cs. fails (fst (snd c))" using Cons.prems(2) by simp
    ultimately have "state (fst (ExecuteAll cb' w' cs)) = StateOpen"
      by (rule ExecuteAll_failing_Open)
    then show ?thesis using c e by simp
  next
    case False
    with st have cl: "state cb' = StateClosed" by simp
    from False Cons.prems(4) have ne: "cs \<noteq> []" by auto
    have "maxFailures cb' \<le> failures cb' + int (length cs)"
      using st Cons.prems(4) by simp
    moreover have "\<forall>c \<in> set cs. fails (fst (snd c))" using Cons.prems(2) by simp
    ultimately have "state (fst (ExecuteAll cb' w' cs)) = StateOpen"
      using cl ne by (intro Cons.IH)
    then show ?thesis using c e by simp
  qed
qed

text \<open>
  C8. \<open>Execute\<close> fails fast without invoking the protected function. When the breaker is
  open and less than \<open>resetTimeout\<close> has elapsed since the last failure, \<open>Execute\<close>
  returns \<open>ErrCircuitOpen\<close>; when it is half-open and the probe count has reached
  \<open>halfOpenMaxReqs\<close>, it returns \<open>ErrTooManyRequests\<close>. In both cases the world of
  \<open>fn\<close> is untouched, whatever \<open>fn\<close> is, and the breaker is unchanged.
\<close>

theorem Execute_fails_fast:
  "(state cb = StateOpen \<and> Since t0 (lastFailureTime cb) < resetTimeout cb
      \<longrightarrow> Execute cb t0 fn t1 w = (Some ErrCircuitOpen, cb, w))
   \<and> (state cb = StateHalfOpen \<and> halfOpenReqs cb \<ge> halfOpenMaxReqs cb
      \<longrightarrow> Execute cb t0 fn t1 w = (Some ErrTooManyRequests, cb, w))"
  by (simp add: Execute_def beforeRequest_def)

theorem Execute_fails_fast_witness:
  "Execute \<lparr> maxFailures = 5, resetTimeout = 60 * Second, halfOpenMaxReqs = 1,
             state = StateOpen, failures = 5, lastFailureTime = 0, halfOpenReqs = 0 \<rparr>
     (10 * Second) (\<lambda>n::nat. (None, Suc n)) (11 * Second) 0
   = (Some ErrCircuitOpen,
      \<lparr> maxFailures = 5, resetTimeout = 60 * Second, halfOpenMaxReqs = 1,
        state = StateOpen, failures = 5, lastFailureTime = 0, halfOpenReqs = 0 \<rparr>, 0)
   \<and> Execute \<lparr> maxFailures = 5, resetTimeout = 60 * Second, halfOpenMaxReqs = 1,
             state = StateHalfOpen, failures = 5, lastFailureTime = 0, halfOpenReqs = 1 \<rparr>
     (70 * Second) (\<lambda>n::nat. (None, Suc n)) (71 * Second) 0
   = (Some ErrTooManyRequests,
      \<lparr> maxFailures = 5, resetTimeout = 60 * Second, halfOpenMaxReqs = 1,
        state = StateHalfOpen, failures = 5, lastFailureTime = 0, halfOpenReqs = 1 \<rparr>, 0)"
proof -
  let ?o = "\<lparr> maxFailures = 5, resetTimeout = 60 * Second, halfOpenMaxReqs = 1,
             state = StateOpen, failures = 5, lastFailureTime = 0, halfOpenReqs = 0 \<rparr>"
  let ?h = "\<lparr> maxFailures = 5, resetTimeout = 60 * Second, halfOpenMaxReqs = 1,
             state = StateHalfOpen, failures = 5, lastFailureTime = 0, halfOpenReqs = 1 \<rparr>"
  have a: "state ?o = StateOpen \<and> Since (10 * Second) (lastFailureTime ?o) < resetTimeout ?o"
    by (simp add: Since_def Sub_def Second_def maxDuration_def minDuration_def)
  have b: "state ?h = StateHalfOpen \<and> halfOpenReqs ?h \<ge> halfOpenMaxReqs ?h"
    by simp
  from a b
    Execute_fails_fast [of ?o "10 * Second" "\<lambda>n::nat. (None, Suc n)" "11 * Second" 0]
    Execute_fails_fast [of ?h "70 * Second" "\<lambda>n::nat. (None, Suc n)" "71 * Second" 0]
  show ?thesis by blast
qed

text \<open>
  C3. Recovery. Starting from a closed breaker, after \<open>maxFailures\<close> consecutive failed
  \<open>Execute\<close> calls the breaker is open. The first \<open>Execute\<close> call that arrives more than
  \<open>resetTimeout\<close> after the last failure passes \<open>beforeRequest\<close>, which makes the breaker
  half-open with the probe counter at zero, and runs \<open>fn\<close>. If the probe succeeds the
  breaker is closed with both counters at zero and every later call is admitted; if it
  fails the breaker is open again, with the failure stamped.
\<close>

theorem circuit_breaker_recovery:
  assumes closed: "state cb = StateClosed"
    and count: "0 \<le> failures cb" "0 < maxFailures cb"
    and calls: "int (length cs) = maxFailures cb" "\<forall>c \<in> set cs. fails (fst (snd c))"
    and after: "ExecuteAll cb w cs = (cb1, w1)"
    and quiet: "Since t0 (lastFailureTime cb1) > resetTimeout cb1"
    and probe: "Execute cb1 t0 fn t1 w1 = (err, cb2, w2)"
  shows "state cb1 = StateOpen
    \<and> beforeRequest cb1 t0 = (None, cb1\<lparr>state := StateHalfOpen, halfOpenReqs := 0\<rparr>)
    \<and> (err, w2) = fn w1
    \<and> (if err = None
        then state cb2 = StateClosed \<and> failures cb2 = 0 \<and> halfOpenReqs cb2 = 0
             \<and> (\<forall>t. beforeRequest cb2 t = (None, cb2))
        else state cb2 = StateOpen \<and> lastFailureTime cb2 = t1)"
proof -
  from calls(1) count(2) have ne: "cs \<noteq> []" by auto
  have "maxFailures cb \<le> failures cb + int (length cs)"
    using calls(1) count(1) by simp
  then have op: "state cb1 = StateOpen"
    using ExecuteAll_failing_Closed [OF closed calls(2) ne, of w] after by simp
  have br: "beforeRequest cb1 t0 = (None, cb1\<lparr>state := StateHalfOpen, halfOpenReqs := 0\<rparr>)"
    using op quiet by (simp add: beforeRequest_def)
  have ex: "(err, cb2, w2) =
      (fst (fn w1), afterRequest (cb1\<lparr>state := StateHalfOpen, halfOpenReqs := 0\<rparr>) (fst (fn w1)) t1,
       snd (fn w1))"
    using probe br by (simp add: Execute_def split: prod.splits)
  then have r: "(err, w2) = fn w1" by simp
  have "if err = None
        then state cb2 = StateClosed \<and> failures cb2 = 0 \<and> halfOpenReqs cb2 = 0
             \<and> (\<forall>t. beforeRequest cb2 t = (None, cb2))
        else state cb2 = StateOpen \<and> lastFailureTime cb2 = t1"
    using ex by (auto simp: afterRequest_def beforeRequest_def Let_def)
  with op br r show ?thesis by simp
qed

theorem circuit_breaker_recovery_witness:
  "ExecuteAll (NewCircuitBreaker \<lparr> MaxFailures = 2, ResetTimeout = 0, HalfOpenMaxReqs = 0 \<rparr>)
     (0::nat)
     [(1 * Second, \<lambda>n. (Some (ErrOther ''down''), Suc n), 2 * Second),
      (3 * Second, \<lambda>n. (Some (ErrOther ''down''), Suc n), 4 * Second)]
   = (\<lparr> maxFailures = 2, resetTimeout = 60 * Second, halfOpenMaxReqs = 1,
        state = StateOpen, failures = 2, lastFailureTime = 4 * Second, halfOpenReqs = 0 \<rparr>, 2)
   \<and> Execute \<lparr> maxFailures = 2, resetTimeout = 60 * Second, halfOpenMaxReqs = 1,
        state = StateOpen, failures = 2, lastFailureTime = 4 * Second, halfOpenReqs = 0 \<rparr>
       (100 * Second) (\<lambda>n. (None, Suc n)) (101 * Second) 2
   = (None,
      \<lparr> maxFailures = 2, resetTimeout = 60 * Second, halfOpenMaxReqs = 1,
        state = StateClosed, failures = 0, lastFailureTime = 4 * Second, halfOpenReqs = 0 \<rparr>, 3)
   \<and> (\<forall>t. beforeRequest
        \<lparr> maxFailures = 2, resetTimeout = 60 * Second, halfOpenMaxReqs = 1,
          state = StateClosed, failures = 0, lastFailureTime = 4 * Second, halfOpenReqs = 0 \<rparr> t
      = (None,
        \<lparr> maxFailures = 2, resetTimeout = 60 * Second, halfOpenMaxReqs = 1,
          state = StateClosed, failures = 0, lastFailureTime = 4 * Second, halfOpenReqs = 0 \<rparr>))"
proof -
  let ?cb = "NewCircuitBreaker \<lparr> MaxFailures = 2, ResetTimeout = 0, HalfOpenMaxReqs = 0 \<rparr>"
  let ?down = "\<lambda>n::nat. (Some (ErrOther ''down''), Suc n)"
  let ?cs = "[(1 * Second, ?down, 2 * Second), (3 * Second, ?down, 4 * Second)]"
  let ?cb1 = "\<lparr> maxFailures = 2, resetTimeout = 60 * Second, halfOpenMaxReqs = 1,
        state = StateOpen, failures = 2, lastFailureTime = 4 * Second, halfOpenReqs = 0 \<rparr>"
  let ?cb2 = "\<lparr> maxFailures = 2, resetTimeout = 60 * Second, halfOpenMaxReqs = 1,
        state = StateClosed, failures = 0, lastFailureTime = 4 * Second, halfOpenReqs = 0 \<rparr>"
  have h1: "state ?cb = StateClosed" by (simp add: NewCircuitBreaker_def)
  have h2: "0 \<le> failures ?cb" by (simp add: NewCircuitBreaker_def)
  have h3: "0 < maxFailures ?cb" by (simp add: NewCircuitBreaker_def)
  have h4: "int (length ?cs) = maxFailures ?cb" by (simp add: NewCircuitBreaker_def)
  have h5: "\<forall>c \<in> set ?cs. fails (fst (snd c))" by (simp add: fails_def)
  have h6: "ExecuteAll ?cb (0::nat) ?cs = (?cb1, 2)"
    by (simp add: NewCircuitBreaker_def Execute_def beforeRequest_def afterRequest_def
        Let_def numeral_2_eq_2)
  have h7: "Since (100 * Second) (lastFailureTime ?cb1) > resetTimeout ?cb1"
    by (simp add: Since_def Sub_def Second_def maxDuration_def minDuration_def)
  have h8: "Execute ?cb1 (100 * Second) (\<lambda>n. (None, Suc n)) (101 * Second) 2 = (None, ?cb2, 3)"
    by (simp add: Execute_def beforeRequest_def afterRequest_def Since_def Sub_def Second_def
        maxDuration_def minDuration_def)
  from circuit_breaker_recovery [OF h1 h2 h3 h4 h5 h6 h7 h8] h6 h8
  show ?thesis by simp
qed

text \<open>
  C10. The failure bookkeeping never resets on failure. \<open>afterRequest\<close> stamps
  \<open>lastFailureTime\<close> on every failed call and adds one to \<open>failures\<close>; \<open>failures\<close>
  becomes zero only through a successful call in the closed or half-open state and
  through \<open>Reset\<close>; \<open>beforeRequest\<close> and a success leave the stamp alone. So the
  open breaker becomes half-open exactly when more than \<open>resetTimeout\<close> has elapsed
  since the stamp of the most recent failure.
\<close>

theorem failure_bookkeeping:
  "(err \<noteq> None \<longrightarrow>
      lastFailureTime (afterRequest cb err now) = now
      \<and> failures (afterRequest cb err now) = failures cb + 1)
   \<and> failures (afterRequest cb None now) = (if state cb = StateOpen then failures cb else 0)
   \<and> failures (snd (beforeRequest cb now)) = failures cb
   \<and> lastFailureTime (snd (beforeRequest cb now)) = lastFailureTime cb
   \<and> lastFailureTime (afterRequest cb None now) = lastFailureTime cb
   \<and> failures (Reset cb) = 0
   \<and> (state cb = StateOpen \<longrightarrow>
        (state (snd (beforeRequest cb now)) = StateHalfOpen)
          = (Since now (lastFailureTime cb) > resetTimeout cb))"
  by (cases "state cb") (auto simp: afterRequest_def beforeRequest_def Reset_def Let_def)

theorem failure_bookkeeping_witness:
  "lastFailureTime (afterRequest
      \<lparr> maxFailures = 5, resetTimeout = 60 * Second, halfOpenMaxReqs = 1,
        state = StateOpen, failures = 5, lastFailureTime = 0, halfOpenReqs = 0 \<rparr>
      (Some (ErrOther ''late'')) (30 * Second)) = 30 * Second
   \<and> failures (afterRequest
      \<lparr> maxFailures = 5, resetTimeout = 60 * Second, halfOpenMaxReqs = 1,
        state = StateOpen, failures = 5, lastFailureTime = 0, halfOpenReqs = 0 \<rparr>
      (Some (ErrOther ''late'')) (30 * Second)) = 6
   \<and> state (snd (beforeRequest
      \<lparr> maxFailures = 5, resetTimeout = 60 * Second, halfOpenMaxReqs = 1,
        state = StateOpen, failures = 6, lastFailureTime = 30 * Second, halfOpenReqs = 0 \<rparr>
      (61 * Second))) \<noteq> StateHalfOpen
   \<and> state (snd (beforeRequest
      \<lparr> maxFailures = 5, resetTimeout = 60 * Second, halfOpenMaxReqs = 1,
        state = StateOpen, failures = 6, lastFailureTime = 30 * Second, halfOpenReqs = 0 \<rparr>
      (91 * Second))) = StateHalfOpen"
proof -
  let ?a = "\<lparr> maxFailures = 5, resetTimeout = 60 * Second, halfOpenMaxReqs = 1,
        state = StateOpen, failures = 5, lastFailureTime = 0, halfOpenReqs = 0 \<rparr>"
  let ?b = "\<lparr> maxFailures = 5, resetTimeout = 60 * Second, halfOpenMaxReqs = 1,
        state = StateOpen, failures = 6, lastFailureTime = 30 * Second, halfOpenReqs = 0 \<rparr>"
  have s: "\<not> Since (61 * Second) (lastFailureTime ?b) > resetTimeout ?b"
      "Since (91 * Second) (lastFailureTime ?b) > resetTimeout ?b"
    by (simp_all add: Since_def Sub_def Second_def maxDuration_def minDuration_def)
  from s failure_bookkeeping [of "Some (ErrOther ''late'')" ?a "30 * Second"]
    failure_bookkeeping [of None ?b "61 * Second"]
    failure_bookkeeping [of None ?b "91 * Second"]
  show ?thesis by simp
qed

section \<open>Theorems: the sliding-window ingress limiter\<close>

text \<open>
  C5. For every identifier and a window that is not negative, \<open>allow\<close> returns true
  exactly when fewer than \<open>limit\<close> of the stored instants remain inside the trailing
  window after pruning. The entry becomes the pruned instants, with the current instant
  appended when the call was allowed; afterwards every instant stored for the identifier
  is at least \<open>now - window\<close>. The entries of other identifiers and the configuration
  are untouched.
\<close>

theorem allow_sliding_window:
  assumes "0 \<le> window rl"
  shows "fst (allow rl identifier now)
           = (int (length (filter (\<lambda>ts. ts > now - window rl) (timestamps rl identifier)))
                < limit rl)
    \<and> timestamps (snd (allow rl identifier now)) identifier
         = filter (\<lambda>ts. ts > now - window rl) (timestamps rl identifier)
           @ (if fst (allow rl identifier now) then [now] else [])
    \<and> (\<forall>ts \<in> set (timestamps (snd (allow rl identifier now)) identifier).
          ts \<ge> now - window rl)
    \<and> (\<forall>other. other \<noteq> identifier \<longrightarrow>
          timestamps (snd (allow rl identifier now)) other = timestamps rl other)
    \<and> limit (snd (allow rl identifier now)) = limit rl
    \<and> window (snd (allow rl identifier now)) = window rl"
proof -
  from assms have n: "neg64 (window rl) = - window rl"
    by (auto simp: neg64_def minDuration_def)
  show ?thesis
    using assms by (auto simp: allow_def Let_def timestamps_def n Add_def After_def)
qed

theorem allow_sliding_window_witness:
  "fst (allow \<lparr> requests = [''u1'' \<mapsto> [1 * Second, 50 * Second, 61 * Second]], limit = 3,
               window = 60 * Second \<rparr> ''u1'' (100 * Second)) = True
   \<and> timestamps (snd (allow \<lparr> requests = [''u1'' \<mapsto> [1 * Second, 50 * Second, 61 * Second]],
               limit = 3, window = 60 * Second \<rparr> ''u1'' (100 * Second))) ''u1''
       = [50 * Second, 61 * Second, 100 * Second]
   \<and> fst (allow \<lparr> requests = [''u1'' \<mapsto> [1 * Second, 50 * Second, 61 * Second]], limit = 2,
               window = 60 * Second \<rparr> ''u1'' (100 * Second)) = False
   \<and> timestamps (snd (allow \<lparr> requests = [''u1'' \<mapsto> [1 * Second, 50 * Second, 61 * Second]],
               limit = 2, window = 60 * Second \<rparr> ''u1'' (100 * Second))) ''u1''
       = [50 * Second, 61 * Second]"
proof -
  let ?r = "[''u1'' \<mapsto> [1 * Second, 50 * Second, 61 * Second]]"
  let ?a = "\<lparr> requests = ?r, limit = 3, window = 60 * Second \<rparr>"
  let ?b = "\<lparr> requests = ?r, limit = 2, window = 60 * Second \<rparr>"
  have w: "0 \<le> window ?a" "0 \<le> window ?b" by (simp_all add: Second_def)
  from allow_sliding_window [OF w(1), of "''u1''" "100 * Second"]
    allow_sliding_window [OF w(2), of "''u1''" "100 * Second"]
  show ?thesis by (simp add: timestamps_def Second_def)
qed

section \<open>Theorems: the bounded request queue\<close>

lemma step_capacity: "capacity (step q x) = capacity q"
  by (cases x)
     (auto simp: Enqueue_def receive_def complete_def processRequest_def Stop_def
           split: list.splits outcome.splits prod.splits)

lemma step_depth:
  "int (length (queue q)) \<le> capacity q \<Longrightarrow> int (length (queue (step q x))) \<le> capacity q"
  by (cases x)
     (auto simp: Enqueue_def receive_def complete_def processRequest_def Stop_def
           split: list.splits outcome.splits prod.splits)

lemma run_snoc: "run q (ops @ [x]) = step (run q ops) x"
  by (simp add: run_def)

lemma run_bounded:
  "int (length (queue q)) \<le> capacity q \<Longrightarrow>
   capacity (run q ops) = capacity q \<and> int (length (queue (run q ops))) \<le> capacity q"
proof (induction ops rule: rev_induct)
  case Nil
  then show ?case by (simp add: run_def)
next
  case (snoc x ops)
  then show ?case using step_depth [of "run q ops" x] by (simp add: run_snoc step_capacity)
qed

lemma run_enqueues:
  "\<not> closed q \<Longrightarrow> int (length (queue q)) \<le> capacity q \<Longrightarrow>
   \<not> closed (run q (map OpEnqueue reqs))
   \<and> int (length (queue (run q (map OpEnqueue reqs))))
       = min (capacity q) (int (length (queue q)) + int (length reqs))"
proof (induction reqs rule: rev_induct)
  case Nil
  then show ?case by (simp add: run_def)
next
  case (snoc r reqs)
  then show ?case
    using run_bounded [of q "map OpEnqueue reqs"]
    by (auto simp: run_snoc Enqueue_def)
qed

lemma NewRequestQueue_fresh:
  "NewRequestQueue config = Some q0 \<Longrightarrow>
   queue q0 = [] \<and> inFlight q0 = [] \<and> \<not> closed q0 \<and> totalEnqueued q0 = 0
   \<and> totalProcessed q0 = 0 \<and> totalFailed q0 = 0 \<and> totalDropped q0 = 0
   \<and> capacity q0 = (if QueueSize config \<le> 0 then 1000 else QueueSize config)"
  by (auto simp: NewRequestQueue_def Let_def split: option.splits)

lemma NewRequestQueue_freshQueue:
  "NewRequestQueue \<lparr> QueueSize = n, Workers = 0, Processor = Some p \<rparr>
     = Some (freshQueue p (if n \<le> 0 then 1000 else n))"
  by (simp add: NewRequestQueue_def freshQueue_def)

text \<open>
  C2. \<open>Enqueue\<close> makes a single offer and always returns one of \<open>nil\<close>, \<open>ErrQueueFull\<close>
  and \<open>ErrQueueClosed\<close>. After any run of queue operations on a queue built by
  \<open>NewRequestQueue\<close>, the depth is at most the capacity, which is the configured size
  (1000 when that is not positive). Whenever the open queue is at capacity, in particular
  after a run of enqueues that is at least as long as the capacity, with nothing
  dequeued, the next \<open>Enqueue\<close> returns \<open>ErrQueueFull\<close> and changes nothing but the
  dropped counter.
\<close>

theorem Enqueue_bounded:
  assumes "NewRequestQueue config = Some q0"
  shows "capacity (run q0 ops) = (if QueueSize config \<le> 0 then 1000 else QueueSize config)
    \<and> QueueSize_of (run q0 ops) \<le> capacity (run q0 ops)
    \<and> fst (Enqueue (run q0 ops) req) \<in> {None, Some ErrQueueFull, Some ErrQueueClosed}
    \<and> (\<not> closed (run q0 ops) \<and> QueueSize_of (run q0 ops) = capacity (run q0 ops) \<longrightarrow>
          Enqueue (run q0 ops) req
            = (Some ErrQueueFull,
               (run q0 ops)\<lparr>totalDropped := totalDropped (run q0 ops) + 1\<rparr>))
    \<and> (int (length reqs) \<ge> capacity q0 \<longrightarrow>
          QueueSize_of (run q0 (map OpEnqueue reqs)) = capacity q0
          \<and> Enqueue (run q0 (map OpEnqueue reqs)) req
            = (Some ErrQueueFull,
               (run q0 (map OpEnqueue reqs))
                 \<lparr>totalDropped := totalDropped (run q0 (map OpEnqueue reqs)) + 1\<rparr>))"
proof -
  note f = NewRequestQueue_fresh [OF assms]
  then have b: "int (length (queue q0)) \<le> capacity q0" by auto
  note rb = run_bounded [OF b, of ops]
  have 1: "capacity (run q0 ops) = (if QueueSize config \<le> 0 then 1000 else QueueSize config)"
    using rb f by simp
  have 2: "QueueSize_of (run q0 ops) \<le> capacity (run q0 ops)"
    using rb by (simp add: QueueSize_of_def)
  have 3: "fst (Enqueue (run q0 ops) req) \<in> {None, Some ErrQueueFull, Some ErrQueueClosed}"
    by (simp add: Enqueue_def)
  have 4: "\<not> closed (run q0 ops) \<and> QueueSize_of (run q0 ops) = capacity (run q0 ops) \<longrightarrow>
          Enqueue (run q0 ops) req
            = (Some ErrQueueFull,
               (run q0 ops)\<lparr>totalDropped := totalDropped (run q0 ops) + 1\<rparr>)"
    by (simp add: Enqueue_def QueueSize_of_def)
  have 5: "int (length reqs) \<ge> capacity q0 \<longrightarrow>
          QueueSize_of (run q0 (map OpEnqueue reqs)) = capacity q0
          \<and> Enqueue (run q0 (map OpEnqueue reqs)) req
            = (Some ErrQueueFull,
               (run q0 (map OpEnqueue reqs))
                 \<lparr>totalDropped := totalDropped (run q0 (map OpEnqueue reqs)) + 1\<rparr>)"
  proof
    assume n: "int (length reqs) \<ge> capacity q0"
    from f have nc: "\<not> closed q0" by simp
    note re = run_enqueues [OF nc b, of reqs]
    with n f have d: "int (length (queue (run q0 (map OpEnqueue reqs)))) = capacity q0"
      by simp
    moreover have "capacity (run q0 (map OpEnqueue reqs)) = capacity q0"
      using run_bounded [OF b] by simp
    ultimately show "QueueSize_of (run q0 (map OpEnqueue reqs)) = capacity q0
          \<and> Enqueue (run q0 (map OpEnqueue reqs)) req
            = (Some ErrQueueFull,
               (run q0 (map OpEnqueue reqs))
                 \<lparr>totalDropped := totalDropped (run q0 (map OpEnqueue reqs)) + 1\<rparr>)"
      using re by (simp add: Enqueue_def QueueSize_of_def)
  qed
  from 1 2 3 4 5 show ?thesis by blast
qed

theorem Enqueue_bounded_witness:
  "NewRequestQueue \<lparr> QueueSize = 2, Workers = 0, Processor = Some echo \<rparr>
     = Some (freshQueue echo 2)
   \<and> Enqueue (run (freshQueue echo 2) (map OpEnqueue [request ''a'', request ''b'']))
       (request ''c'')
     = (Some ErrQueueFull,
        (freshQueue echo 2)
          \<lparr>queue := [request ''a'', request ''b''], totalEnqueued := 2, totalDropped := 1\<rparr>)
   \<and> QueueSize_of
       (run (freshQueue echo 2)
          [OpEnqueue (request ''a''), OpReceive, OpEnqueue (request ''b''),
           OpEnqueue (request ''c''), OpEnqueue (request ''d'')]) = 2"
proof -
  let ?cfg = "\<lparr> QueueSize = 2, Workers = 0, Processor = Some echo \<rparr>"
  let ?reqs = "[request ''a'', request ''b'']"
  have n: "NewRequestQueue ?cfg = Some (freshQueue echo 2)"
    using NewRequestQueue_freshQueue [of 2 echo] by simp
  have r: "run (freshQueue echo 2) (map OpEnqueue ?reqs)
     = (freshQueue echo 2)\<lparr>queue := ?reqs, totalEnqueued := 2\<rparr>"
    by (simp add: run_def Enqueue_def freshQueue_def)
  have l: "int (length ?reqs) \<ge> capacity (freshQueue echo 2)"
    by (simp add: freshQueue_def)
  have d: "QueueSize_of
       (run (freshQueue echo 2)
          [OpEnqueue (request ''a''), OpReceive, OpEnqueue (request ''b''),
           OpEnqueue (request ''c''), OpEnqueue (request ''d'')]) = 2"
    by (simp add: run_def Enqueue_def receive_def freshQueue_def QueueSize_of_def)
  from Enqueue_bounded [OF n, of "[]" "request ''c''" ?reqs] l n d show ?thesis
    unfolding r by (simp add: freshQueue_def)
qed

lemma step_metrics:
  assumes "totalEnqueued q = totalProcessed q + totalFailed q
             + int (length (inFlight q)) + int (length (queue q))"
  shows "totalEnqueued (step q x) = totalProcessed (step q x) + totalFailed (step q x)
             + int (length (inFlight (step q x))) + int (length (queue (step q x)))"
proof (cases x)
  case (OpEnqueue req)
  then show ?thesis using assms by (auto simp: Enqueue_def)
next
  case OpReceive
  then show ?thesis using assms by (auto simp: receive_def split: list.splits)
next
  case (OpComplete i)
  show ?thesis
  proof (cases "i < length (inFlight q)")
    case True
    then have l: "int (length (take i (inFlight q) @ drop (Suc i) (inFlight q)))
        = int (length (inFlight q)) - 1"
      by auto
    show ?thesis using assms True l OpComplete
      by (auto simp: complete_def processRequest_def split: outcome.splits prod.splits)
  next
    case False
    then show ?thesis using assms OpComplete by (simp add: complete_def)
  qed
next
  case OpStop
  then show ?thesis using assms by (simp add: Stop_def)
qed

text \<open>
  C7, as the code has it. After every run of queue operations on a queue built by
  \<open>NewRequestQueue\<close>, the enqueued counter equals the sum of the processed and failed
  counters, the number of requests in flight and the depth.
\<close>

theorem queue_metrics:
  assumes "NewRequestQueue config = Some q0"
  shows "totalEnqueued (run q0 ops)
     = totalProcessed (run q0 ops) + totalFailed (run q0 ops)
       + int (length (inFlight (run q0 ops))) + QueueSize_of (run q0 ops)"
proof -
  have "totalEnqueued (run q0 ops)
     = totalProcessed (run q0 ops) + totalFailed (run q0 ops)
       + int (length (inFlight (run q0 ops))) + int (length (queue (run q0 ops)))"
  proof (induction ops rule: rev_induct)
    case Nil
    then show ?case using NewRequestQueue_fresh [OF assms] by (simp add: run_def)
  next
    case (snoc x ops)
    then show ?case using step_metrics [of "run q0 ops" x] by (simp add: run_snoc)
  qed
  then show ?thesis by (simp add: QueueSize_of_def)
qed

theorem queue_metrics_witness:
  "NewRequestQueue \<lparr> QueueSize = 1, Workers = 0, Processor = Some echo \<rparr>
     = Some (freshQueue echo 1)
   \<and> run (freshQueue echo 1)
       [OpEnqueue (request ''a''), OpEnqueue (request ''b''), OpReceive,
        OpEnqueue (request ''c''), OpComplete 0, OpReceive]
     = (freshQueue echo 1)
         \<lparr>totalEnqueued := 2, totalProcessed := 1, totalDropped := 1,
          inFlight := [request ''c'']\<rparr>
   \<and> totalEnqueued (run (freshQueue echo 1)
       [OpEnqueue (request ''a''), OpEnqueue (request ''b''), OpReceive,
        OpEnqueue (request ''c''), OpComplete 0, OpReceive])
     = totalProcessed (run (freshQueue echo 1)
       [OpEnqueue (request ''a''), OpEnqueue (request ''b''), OpReceive,
        OpEnqueue (request ''c''), OpComplete 0, OpReceive])
       + totalFailed (run (freshQueue echo 1)
       [OpEnqueue (request ''a''), OpEnqueue (request ''b''), OpReceive,
        OpEnqueue (request ''c''), OpComplete 0, OpReceive])
       + int (length (inFlight (run (freshQueue echo 1)
       [OpEnqueue (request ''a''), OpEnqueue (request ''b''), OpReceive,
        OpEnqueue (request ''c''), OpComplete 0, OpReceive])))
       + QueueSize_of (run (freshQueue echo 1)
       [OpEnqueue (request ''a''), OpEnqueue (request ''b''), OpReceive,
        OpEnqueue (request ''c''), OpComplete 0, OpReceive])"
proof -
  let ?ops = "[OpEnqueue (request ''a''), OpEnqueue (request ''b''), OpReceive,
      OpEnqueue (request ''c''), OpComplete 0, OpReceive]"
  have n: "NewRequestQueue \<lparr> QueueSize = 1, Workers = 0, Processor = Some echo \<rparr>
      = Some (freshQueue echo 1)"
    using NewRequestQueue_freshQueue [of 1 echo] by simp
  have r: "run (freshQueue echo 1) ?ops
     = (freshQueue echo 1)
         \<lparr>totalEnqueued := 2, totalProcessed := 1, totalDropped := 1,
          inFlight := [request ''c'']\<rparr>"
    by (simp add: run_def Enqueue_def receive_def complete_def processRequest_def
        freshQueue_def echo_def request_def)
  from n r queue_metrics [OF n, of ?ops] show ?thesis by simp
qed

text \<open>
  The equation of C7 with the dropped counter in the sum fails once a request has been
  rejected: a queue of capacity one that is offered two requests has one enqueued, one
  dropped and one waiting.
\<close>

theorem queue_metrics_counterexample:
  "NewRequestQueue \<lparr> QueueSize = 1, Workers = 0, Processor = Some echo \<rparr>
     = Some (freshQueue echo 1)
   \<and> run (freshQueue echo 1) [OpEnqueue (request ''a''), OpEnqueue (request ''b'')]
     = (freshQueue echo 1)\<lparr>queue := [request ''a''], totalEnqueued := 1, totalDropped := 1\<rparr>
   \<and> totalEnqueued
        (run (freshQueue echo 1) [OpEnqueue (request ''a''), OpEnqueue (request ''b'')])
     \<noteq> totalProcessed
        (run (freshQueue echo 1) [OpEnqueue (request ''a''), OpEnqueue (request ''b'')])
       + totalFailed
        (run (freshQueue echo 1) [OpEnqueue (request ''a''), OpEnqueue (request ''b'')])
       + totalDropped
        (run (freshQueue echo 1) [OpEnqueue (request ''a''), OpEnqueue (request ''b'')])
       + int (length (inFlight
        (run (freshQueue echo 1) [OpEnqueue (request ''a''), OpEnqueue (request ''b'')])))
       + QueueSize_of
        (run (freshQueue echo 1) [OpEnqueue (request ''a''), OpEnqueue (request ''b'')])"
  by (simp add: NewRequestQueue_def run_def Enqueue_def QueueSize_of_def freshQueue_def)

section \<open>Theorems: the AI chat handler\<close>

text \<open>
  C6, as the code has it. When \<open>Enqueue\<close> fails with \<open>ErrQueueFull\<close> the handler answers
  with status 429 and the message that the server is busy. When it fails with
  \<open>ErrQueueClosed\<close> the handler answers through \<open>InternalServerError\<close>, with status 500.
\<close>

theorem handler_enqueue_failure:
  "(fst (Enqueue q \<lparr> ID = requestID, Data = body, Context = ctx, EnqueueAt = now \<rparr>)
      = Some ErrQueueFull \<longrightarrow>
      fst (AIHandler_GenerateChatResponse q (Some body) requestID ctx now w)
        = Responded \<lparr> status = 429, success = False,
            message = ''Server is busy, please try again later'', data = [],
            error_code = None \<rparr>)
   \<and> (fst (Enqueue q \<lparr> ID = requestID, Data = body, Context = ctx, EnqueueAt = now \<rparr>)
      = Some ErrQueueClosed \<longrightarrow>
      fst (AIHandler_GenerateChatResponse q (Some body) requestID ctx now w)
        = Responded \<lparr> status = 500, success = False,
            message = ''Failed to process request'', data = [],
            error_code = Some ''INTERNAL_SERVER_ERROR'' \<rparr>)"
  by (auto simp: AIHandler_GenerateChatResponse_def Let_def InternalServerError_def
        StatusTooManyRequests_def StatusInternalServerError_def split: prod.splits option.splits)

theorem handler_enqueue_failure_witness:
  "response_status (fst (AIHandler_GenerateChatResponse
       (snd (Enqueue (freshQueue reply 1)
          \<lparr> ID = ''r0'', Data = (''Leo'', ''hi''), Context = None, EnqueueAt = 0 \<rparr>))
       (Some (''Leo'', ''hello'')) ''r1'' None 1 Deadline)) = Some 429
   \<and> response_status (fst (AIHandler_GenerateChatResponse
       (Stop (freshQueue reply 1))
       (Some (''Leo'', ''hello'')) ''r1'' None 1 Deadline)) = Some 500"
proof -
  let ?full = "snd (Enqueue (freshQueue reply 1)
          \<lparr> ID = ''r0'', Data = (''Leo'', ''hi''), Context = None, EnqueueAt = 0 \<rparr>)"
  let ?stopped = "Stop (freshQueue reply 1)"
  let ?req = "\<lparr> ID = ''r1'', Data = (''Leo'', ''hello''), Context = None, EnqueueAt = 1 \<rparr>"
  have a: "fst (Enqueue ?full ?req) = Some ErrQueueFull"
    by (simp add: Enqueue_def freshQueue_def)
  have b: "fst (Enqueue ?stopped ?req) = Some ErrQueueClosed"
    by (simp add: Enqueue_def Stop_def freshQueue_def)
  from a b
    handler_enqueue_failure [of ?full "''r1''" "(''Leo'', ''hello'')" None 1 Deadline]
    handler_enqueue_failure [of ?stopped "''r1''" "(''Leo'', ''hello'')" None 1 Deadline]
  show ?thesis by (simp add: response_status_def)
qed

text \<open>
  On a stopped queue \<open>Enqueue\<close> returns \<open>ErrQueueClosed\<close> and the handler answers 500, not
  503.
\<close>

theorem handler_queue_closed_counterexample:
  "fst (Enqueue (Stop (freshQueue reply 1))
          \<lparr> ID = ''r1'', Data = (''Leo'', ''hello''), Context = None, EnqueueAt = 1 \<rparr>)
     = Some ErrQueueClosed
   \<and> response_status (fst (AIHandler_GenerateChatResponse (Stop (freshQueue reply 1))
       (Some (''Leo'', ''hello'')) ''r1'' None 1 Deadline)) = Some 500
   \<and> response_status (fst (AIHandler_GenerateChatResponse (Stop (freshQueue reply 1))
       (Some (''Leo'', ''hello'')) ''r1'' None 1 Deadline)) \<noteq> Some StatusServiceUnavailable"
  by (simp add: AIHandler_GenerateChatResponse_def Enqueue_def Stop_def freshQueue_def
      response_status_def InternalServerError_def StatusInternalServerError_def
      StatusServiceUnavailable_def)

section \<open>Theorems: the AI caller\<close>

lemma NewGeminiClient_fields:
  "NewGeminiClient None = Inr c \<Longrightarrow>
   maxRetries c = 3 \<and> baseDelay c = Second \<and> model c = ''gemini-2.0-flash-exp''"
  by (auto simp: NewGeminiClient_def)

lemma delay_1_2:
  "baseDelay c = Second \<Longrightarrow> delay c 1 = Second \<and> delay c 2 = 2 * Second"
  by (simp add: delay_def Second_def)

lemma delay_3:
  "baseDelay c = Second \<Longrightarrow> delay c 3 = 4 * Second"
  by (simp add: delay_def Second_def)

lemma retryLoop_3:
  assumes "maxRetries c = 3" "baseDelay c = Second"
  shows "retryLoop c up prompt 0 =
     (case up 0 (model c) prompt of
        Inr t \<Rightarrow> ((t, None), [ProviderCall (30 * Second) (model c) prompt])
      | Inl e0 \<Rightarrow>
          (case up 1 (model c) prompt of
             Inr t \<Rightarrow> ((t, None),
               [ProviderCall (30 * Second) (model c) prompt, Sleep Second,
                ProviderCall (30 * Second) (model c) prompt])
           | Inl e1 \<Rightarrow>
               (case up 2 (model c) prompt of
                  Inr t \<Rightarrow> ((t, None),
                    [ProviderCall (30 * Second) (model c) prompt, Sleep Second,
                     ProviderCall (30 * Second) (model c) prompt, Sleep (2 * Second),
                     ProviderCall (30 * Second) (model c) prompt])
                | Inl e2 \<Rightarrow> (([], Some ErrAIUnavailable),
                    [ProviderCall (30 * Second) (model c) prompt, Sleep Second,
                     ProviderCall (30 * Second) (model c) prompt, Sleep (2 * Second),
                     ProviderCall (30 * Second) (model c) prompt]))))"
proof -
  note d = delay_1_2 [OF assms(2)]
  have r3: "retryLoop c up prompt 3 = (([], Some ErrAIUnavailable), [])"
    using assms(1) by (subst retryLoop.simps) simp
  have r2: "retryLoop c up prompt 2 =
      (case up 2 (model c) prompt of
         Inr t \<Rightarrow> ((t, None), [Sleep (2 * Second), ProviderCall (30 * Second) (model c) prompt])
       | Inl e \<Rightarrow> (([], Some ErrAIUnavailable),
            [Sleep (2 * Second), ProviderCall (30 * Second) (model c) prompt]))"
    using assms(1) d r3 by (subst retryLoop.simps) (simp add: Let_def split: sum.splits)
  have r1: "retryLoop c up prompt 1 =
      (case up 1 (model c) prompt of
         Inr t \<Rightarrow> ((t, None), [Sleep Second, ProviderCall (30 * Second) (model c) prompt])
       | Inl e \<Rightarrow> (case retryLoop c up prompt 2 of
            (res, es) \<Rightarrow> (res, [Sleep Second, ProviderCall (30 * Second) (model c) prompt] @ es)))"
    using assms(1) d by (subst retryLoop.simps) (simp add: Let_def split: sum.splits)
  have r0: "retryLoop c up prompt 0 =
      (case up 0 (model c) prompt of
         Inr t \<Rightarrow> ((t, None), [ProviderCall (30 * Second) (model c) prompt])
       | Inl e \<Rightarrow> (case retryLoop c up prompt 1 of
            (res, es) \<Rightarrow> (res, [ProviderCall (30 * Second) (model c) prompt] @ es)))"
    using assms(1) by (subst retryLoop.simps) (simp add: Let_def split: sum.splits)
  show ?thesis
    unfolding r0 r1 r2 by (simp split: sum.splits)
qed

lemma retryLoop_result:
  "fst (retryLoop c up p a) = ([], Some ErrAIUnavailable)
   \<or> (\<exists>k t. up k (model c) p = Inr t \<and> fst (retryLoop c up p a) = (t, None))"
proof (induction c up p a rule: retryLoop.induct)
  case (1 c up prompt attempt)
  show ?case
  proof (cases "attempt < maxRetries c")
    case False
    then show ?thesis by (subst retryLoop.simps) simp
  next
    case True
    show ?thesis
    proof (cases "up attempt (model c) prompt")
      case (Inr t)
      then have "fst (retryLoop c up prompt attempt) = (t, None)"
        using True by (subst retryLoop.simps) (simp add: Let_def)
      with Inr show ?thesis by blast
    next
      case (Inl e)
      then have "fst (retryLoop c up prompt attempt) = fst (retryLoop c up prompt (attempt + 1))"
        using True by (subst retryLoop.simps) (simp add: Let_def split: prod.splits)
      then show ?thesis using "1.IH" [OF True refl Inl] by simp
    qed
  qed
qed

lemma retryLoop_first_success:
  "a \<le> k \<Longrightarrow> k < maxRetries c \<Longrightarrow> up k (model c) p = Inr t \<Longrightarrow>
   \<forall>j. a \<le> j \<and> j < k \<longrightarrow> isl (up j (model c) p) \<Longrightarrow>
   fst (retryLoop c up p a) = (t, None)"
proof (induction c up p a rule: retryLoop.induct)
  case (1 c up prompt attempt)
  from "1.prems" have lt: "attempt < maxRetries c" by simp
  show ?case
  proof (cases "attempt = k")
    case True
    with "1.prems"(3) have "up attempt (model c) prompt = Inr t" by simp
    then show ?thesis using lt by (subst retryLoop.simps) (simp add: Let_def)
  next
    case False
    with "1.prems"(1) have less: "attempt < k" by simp
    with "1.prems"(4) have "isl (up attempt (model c) prompt)" by simp
    then obtain e where e: "up attempt (model c) prompt = Inl e"
      by (cases "up attempt (model c) prompt") auto
    have step: "fst (retryLoop c up prompt attempt) = fst (retryLoop c up prompt (attempt + 1))"
      using lt e by (subst retryLoop.simps) (simp add: Let_def split: prod.splits)
    have "fst (retryLoop c up prompt (attempt + 1)) = (t, None)"
    proof (rule "1.IH" [OF lt refl e])
      show "attempt + 1 \<le> k" using less by simp
      show "k < maxRetries c" by (rule "1.prems"(2))
      show "up k (model c) prompt = Inr t" by (rule "1.prems"(3))
      show "\<forall>j. attempt + 1 \<le> j \<and> j < k \<longrightarrow> isl (up j (model c) prompt)"
        using "1.prems"(4) by simp
    qed
    with step show ?thesis by simp
  qed
qed

lemma GenerateContent_first_success:
  "p \<noteq> [] \<Longrightarrow> 0 \<le> k \<Longrightarrow> k < maxRetries c \<Longrightarrow> up k (model c) p = Inr t \<Longrightarrow>
   \<forall>j. 0 \<le> j \<and> j < k \<longrightarrow> isl (up j (model c) p) \<Longrightarrow>
   fst (GenerateContent c up p) = (t, None)"
  using retryLoop_first_success [of 0 k c up p t] by (simp add: GenerateContent_def)

lemma retryLoop_range_fail:
  "\<forall>k. a \<le> k \<and> k < maxRetries c \<longrightarrow> isl (up k (model c) p) \<Longrightarrow>
   fst (retryLoop c up p a) = ([], Some ErrAIUnavailable)"
proof (induction c up p a rule: retryLoop.induct)
  case (1 c up prompt attempt)
  show ?case
  proof (cases "attempt < maxRetries c")
    case False
    then show ?thesis by (subst retryLoop.simps) simp
  next
    case True
    with "1.prems" have "isl (up attempt (model c) prompt)" by simp
    then obtain e where e: "up attempt (model c) prompt = Inl e"
      by (cases "up attempt (model c) prompt") auto
    have step: "fst (retryLoop c up prompt attempt) = fst (retryLoop c up prompt (attempt + 1))"
      using True e by (subst retryLoop.simps) (simp add: Let_def split: prod.splits)
    have "fst (retryLoop c up prompt (attempt + 1)) = ([], Some ErrAIUnavailable)"
    proof (rule "1.IH" [OF True refl e])
      show "\<forall>k. attempt + 1 \<le> k \<and> k < maxRetries c \<longrightarrow> isl (up k (model c) prompt)"
        using "1.prems" by simp
    qed
    with step show ?thesis by simp
  qed
qed

lemma GenerateContent_range_fail:
  "\<forall>k. 0 \<le> k \<and> k < maxRetries c \<longrightarrow> isl (up k (model c) p) \<Longrightarrow>
   snd (fst (GenerateContent c up p)) \<noteq> None"
  using retryLoop_range_fail [of 0 c up p] by (simp add: GenerateContent_def)

lemma GenerateContent_result:
  "fst (GenerateContent c up p) = ([], Some ErrInvalidPrompt)
   \<or> fst (GenerateContent c up p) = ([], Some ErrAIUnavailable)
   \<or> (\<exists>k t. up k (model c) p = Inr t \<and> fst (GenerateContent c up p) = (t, None))"
  using retryLoop_result [of c up p 0] by (auto simp: GenerateContent_def)

lemma buildChatPrompt_nonempty: "buildChatPrompt z m \<noteq> []"
  by (simp add: buildChatPrompt_def Let_def)

lemma buildInsightPrompt_nonempty: "buildInsightPrompt h \<noteq> []"
  by (simp add: buildInsightPrompt_def)

lemma getFallbackChatResponse_nonempty: "getFallbackChatResponse z \<noteq> []"
  by (auto simp: getFallbackChatResponse_def fallbacks_def split: option.splits)

lemma getFallbackInsight_nonempty: "getFallbackInsight \<noteq> []"
  by (simp add: getFallbackInsight_def)

lemma fallbacks_keys: "map fst fallbacks = zodiacSigns"
  by (simp add: fallbacks_def zodiacSigns_def)

text \<open>
  C9. \<open>GenerateContent\<close> returns \<open>ErrInvalidPrompt\<close> for the empty prompt and does
  nothing else. For a non-empty prompt the client that \<open>NewGeminiClient\<close> builds makes at
  most three attempts, each a provider call under a 30-second timeout, with exponential
  backoff between attempts: the delay before attempt \<open>k + 1\<close> is \<open>delay c k\<close>, and the
  schedule \<open>delay c 1\<close>, \<open>delay c 2\<close>, \<open>delay c 3\<close> is one, two and four seconds. It returns
  the text of the first attempt that succeeds, and after three failed attempts the empty
  string with \<open>ErrAIUnavailable\<close>. The trace shows which pauses a run takes: the first
  before the second attempt, the second before the third.
\<close>

theorem GenerateContent_retry:
  assumes "NewGeminiClient None = Inr c"
  shows "GenerateContent c up [] = (([], Some ErrInvalidPrompt), [])
    \<and> (prompt \<noteq> [] \<longrightarrow>
         GenerateContent c up prompt =
           (case up 0 (model c) prompt of
              Inr t \<Rightarrow> ((t, None), [ProviderCall (30 * Second) (model c) prompt])
            | Inl e0 \<Rightarrow>
                (case up 1 (model c) prompt of
                   Inr t \<Rightarrow> ((t, None),
                     [ProviderCall (30 * Second) (model c) prompt, Sleep Second,
                      ProviderCall (30 * Second) (model c) prompt])
                 | Inl e1 \<Rightarrow>
                     (case up 2 (model c) prompt of
                        Inr t \<Rightarrow> ((t, None),
                          [ProviderCall (30 * Second) (model c) prompt, Sleep Second,
                           ProviderCall (30 * Second) (model c) prompt, Sleep (2 * Second),
                           ProviderCall (30 * Second) (model c) prompt])
                      | Inl e2 \<Rightarrow> (([], Some ErrAIUnavailable),
                          [ProviderCall (30 * Second) (model c) prompt, Sleep Second,
                           ProviderCall (30 * Second) (model c) prompt, Sleep (2 * Second),
                           ProviderCall (30 * Second) (model c) prompt])))))
    \<and> attempts (snd (GenerateContent c up prompt)) \<le> 3
    \<and> sleeps (snd (GenerateContent c up prompt)) \<in> {[], [Second], [Second, 2 * Second]}
    \<and> sleeps (snd (GenerateContent c up prompt))
         \<in> {[], [delay c 1], [delay c 1, delay c 2]}
    \<and> delay c 1 = 1 * Second \<and> delay c 2 = 2 * Second \<and> delay c 3 = 4 * Second"
proof -
  note f = NewGeminiClient_fields [OF assms]
  have d: "delay c 1 = Second \<and> delay c 2 = 2 * Second \<and> delay c 3 = 4 * Second"
    using f delay_1_2 [of c] delay_3 [of c] by simp
  have r: "retryLoop c up prompt 0 = (case up 0 (model c) prompt of
              Inr t \<Rightarrow> ((t, None), [ProviderCall (30 * Second) (model c) prompt])
            | Inl e0 \<Rightarrow>
                (case up 1 (model c) prompt of
                   Inr t \<Rightarrow> ((t, None),
                     [ProviderCall (30 * Second) (model c) prompt, Sleep Second,
                      ProviderCall (30 * Second) (model c) prompt])
                 | Inl e1 \<Rightarrow>
                     (case up 2 (model c) prompt of
                        Inr t \<Rightarrow> ((t, None),
                          [ProviderCall (30 * Second) (model c) prompt, Sleep Second,
                           ProviderCall (30 * Second) (model c) prompt, Sleep (2 * Second),
                           ProviderCall (30 * Second) (model c) prompt])
                      | Inl e2 \<Rightarrow> (([], Some ErrAIUnavailable),
                          [ProviderCall (30 * Second) (model c) prompt, Sleep Second,
                           ProviderCall (30 * Second) (model c) prompt, Sleep (2 * Second),
                           ProviderCall (30 * Second) (model c) prompt]))))"
    using f by (intro retryLoop_3) simp_all
  have 1: "GenerateContent c up [] = (([], Some ErrInvalidPrompt), [])"
    by (simp add: GenerateContent_def)
  have 3: "attempts (snd (GenerateContent c up prompt)) \<le> 3"
    unfolding GenerateContent_def r
    by (simp add: attempts_def split: sum.splits)
  have 4: "sleeps (snd (GenerateContent c up prompt)) \<in> {[], [Second], [Second, 2 * Second]}"
    unfolding GenerateContent_def r
    by (simp add: sleeps_def split: sum.splits)
  from 1 3 4 r d show ?thesis by (simp add: GenerateContent_def)
qed

theorem GenerateContent_retry_witness:
  "NewGeminiClient None = Inr client
   \<and> GenerateContent client down ''hi'' =
       (([], Some ErrAIUnavailable),
        [ProviderCall (30 * Second) ''gemini-2.0-flash-exp'' ''hi'', Sleep Second,
         ProviderCall (30 * Second) ''gemini-2.0-flash-exp'' ''hi'', Sleep (2 * Second),
         ProviderCall (30 * Second) ''gemini-2.0-flash-exp'' ''hi''])
   \<and> GenerateContent client (\<lambda>attempt m p. if attempt = 1 then Inr ''halo'' else down attempt m p)
        ''hi'' =
       ((''halo'', None),
        [ProviderCall (30 * Second) ''gemini-2.0-flash-exp'' ''hi'', Sleep Second,
         ProviderCall (30 * Second) ''gemini-2.0-flash-exp'' ''hi''])
   \<and> [delay client 1, delay client 2, delay client 3] = [1 * Second, 2 * Second, 4 * Second]"
proof -
  have n: "NewGeminiClient None = Inr client"
    by (simp add: NewGeminiClient_def client_def)
  have p: "''hi'' \<noteq> []" by simp
  from n GenerateContent_retry [OF n, of down "''hi''"]
    GenerateContent_retry [OF n,
      of "\<lambda>attempt m p. if attempt = 1 then Inr ''halo'' else down attempt m p" "''hi''"]
  show ?thesis by (simp add: down_def client_def)
qed

text \<open>
  C1. Against a provider that fails every call, all three attempts of \<open>GenerateContent\<close>
  reach the provider, each under its 30-second timeout. The client holds neither a circuit
  breaker nor a limiter: no attempt passes through \<open>Execute\<close> or waits for a token, and
  none is turned away.
\<close>

theorem GenerateContent_calls_provider_directly:
  "snd (GenerateContent client down ''hi'') =
     [ProviderCall (30 * Second) ''gemini-2.0-flash-exp'' ''hi'', Sleep Second,
      ProviderCall (30 * Second) ''gemini-2.0-flash-exp'' ''hi'', Sleep (2 * Second),
      ProviderCall (30 * Second) ''gemini-2.0-flash-exp'' ''hi'']"
proof -
  have "retryLoop client down ''hi'' 0 =
      (([], Some ErrAIUnavailable),
        [ProviderCall (30 * Second) (model client) ''hi'', Sleep Second,
         ProviderCall (30 * Second) (model client) ''hi'', Sleep (2 * Second),
         ProviderCall (30 * Second) (model client) ''hi''])"
    by (subst retryLoop_3) (simp_all add: client_def down_def)
  then show ?thesis
    by (simp add: GenerateContent_def client_def)
qed

text \<open>
  C4, as the code has it. \<open>GenerateChatResponse\<close> never returns an error. When every
  upstream call fails it returns the fallback of the zodiac tag, which is never empty:
  the table has one entry for each of the twelve tags, no two alike, and every other tag
  gets the generic text. When an attempt succeeds it returns the text of the first
  attempt that succeeds as it is, so the result is non-empty provided the provider
  returns no empty text. \<open>GenerateInsight\<close> does the same with its one fallback.
\<close>

theorem fallback_coverage:
  "snd (fst (GenerateChatResponse c up z m)) = None
   \<and> ((\<forall>j. 0 \<le> j \<and> j < maxRetries c \<longrightarrow> isl (up j (model c) (buildChatPrompt z m))) \<longrightarrow>
        fst (fst (GenerateChatResponse c up z m)) = getFallbackChatResponse z)
   \<and> (0 \<le> k \<and> k < maxRetries c \<and> up k (model c) (buildChatPrompt z m) = Inr t
        \<and> (\<forall>j. 0 \<le> j \<and> j < k \<longrightarrow> isl (up j (model c) (buildChatPrompt z m))) \<longrightarrow>
        fst (GenerateChatResponse c up z m) = (t, None))
   \<and> ((\<forall>k t. up k (model c) (buildChatPrompt z m) = Inr t \<longrightarrow> t \<noteq> []) \<longrightarrow>
        fst (fst (GenerateChatResponse c up z m)) \<noteq> [])
   \<and> getFallbackChatResponse z \<noteq> []
   \<and> map fst fallbacks = zodiacSigns
   \<and> (z \<in> set zodiacSigns \<longrightarrow> map_of fallbacks z = Some (getFallbackChatResponse z))
   \<and> distinct (map getFallbackChatResponse zodiacSigns)
   \<and> (z \<notin> set zodiacSigns \<longrightarrow>
        getFallbackChatResponse z = ''Halo! Ada yang bisa aku bantu? Cerita aja santai.'')
   \<and> snd (fst (GenerateInsight c up h)) = None
   \<and> ((\<forall>j. 0 \<le> j \<and> j < maxRetries c \<longrightarrow> isl (up j (model c) (buildInsightPrompt h))) \<longrightarrow>
        fst (fst (GenerateInsight c up h)) = getFallbackInsight)
   \<and> (0 \<le> k \<and> k < maxRetries c \<and> up k (model c) (buildInsightPrompt h) = Inr t
        \<and> (\<forall>j. 0 \<le> j \<and> j < k \<longrightarrow> isl (up j (model c) (buildInsightPrompt h))) \<longrightarrow>
        fst (GenerateInsight c up h) = (t, None))
   \<and> ((\<forall>k t. up k (model c) (buildInsightPrompt h) = Inr t \<longrightarrow> t \<noteq> []) \<longrightarrow>
        fst (fst (GenerateInsight c up h)) \<noteq> [])
   \<and> getFallbackInsight \<noteq> []"
proof -
  let ?p = "buildChatPrompt z m"
  let ?q = "buildInsightPrompt h"
  have 1: "snd (fst (GenerateChatResponse c up z m)) = None"
    by (simp add: GenerateChatResponse_def Let_def split: prod.splits)
  have 2: "(\<forall>j. 0 \<le> j \<and> j < maxRetries c \<longrightarrow> isl (up j (model c) ?p)) \<longrightarrow>
        fst (fst (GenerateChatResponse c up z m)) = getFallbackChatResponse z"
    using GenerateContent_range_fail [of c up ?p]
    by (auto simp: GenerateChatResponse_def Let_def split: prod.splits)
  have 4: "0 \<le> k \<and> k < maxRetries c \<and> up k (model c) ?p = Inr t
        \<and> (\<forall>j. 0 \<le> j \<and> j < k \<longrightarrow> isl (up j (model c) ?p)) \<longrightarrow>
        fst (GenerateChatResponse c up z m) = (t, None)"
  proof
    assume a: "0 \<le> k \<and> k < maxRetries c \<and> up k (model c) ?p = Inr t
        \<and> (\<forall>j. 0 \<le> j \<and> j < k \<longrightarrow> isl (up j (model c) ?p))"
    have "fst (GenerateContent c up ?p) = (t, None)"
      using a buildChatPrompt_nonempty [of z m]
      by (intro GenerateContent_first_success [of ?p k c up t]) simp_all
    then show "fst (GenerateChatResponse c up z m) = (t, None)"
      by (auto simp: GenerateChatResponse_def Let_def split: prod.splits)
  qed
  have 3: "(\<forall>k t. up k (model c) ?p = Inr t \<longrightarrow> t \<noteq> []) \<longrightarrow>
        fst (fst (GenerateChatResponse c up z m)) \<noteq> []"
  proof
    assume a: "\<forall>k t. up k (model c) ?p = Inr t \<longrightarrow> t \<noteq> []"
    from GenerateContent_result [of c up ?p] a
    have "snd (fst (GenerateContent c up ?p)) \<noteq> None
          \<or> fst (fst (GenerateContent c up ?p)) \<noteq> []"
      by force
    then show "fst (fst (GenerateChatResponse c up z m)) \<noteq> []"
      using getFallbackChatResponse_nonempty [of z]
      by (auto simp: GenerateChatResponse_def Let_def split: prod.splits)
  qed
  have 5: "z \<in> set zodiacSigns \<longrightarrow> map_of fallbacks z = Some (getFallbackChatResponse z)"
    by (auto simp: getFallbackChatResponse_def zodiacSigns_def fallbacks_def)
  have 6: "distinct (map getFallbackChatResponse zodiacSigns)"
    by (simp add: getFallbackChatResponse_def zodiacSigns_def fallbacks_def)
  have 7: "z \<notin> set zodiacSigns \<longrightarrow>
        getFallbackChatResponse z = ''Halo! Ada yang bisa aku bantu? Cerita aja santai.''"
    by (simp add: getFallbackChatResponse_def zodiacSigns_def fallbacks_def)
  have 8: "snd (fst (GenerateInsight c up h)) = None"
    by (simp add: GenerateInsight_def Let_def split: prod.splits)
  have 9: "(\<forall>j. 0 \<le> j \<and> j < maxRetries c \<longrightarrow> isl (up j (model c) ?q)) \<longrightarrow>
        fst (fst (GenerateInsight c up h)) = getFallbackInsight"
    using GenerateContent_range_fail [of c up ?q]
    by (auto simp: GenerateInsight_def Let_def split: prod.splits)
  have 11: "0 \<le> k \<and> k < maxRetries c \<and> up k (model c) ?q = Inr t
        \<and> (\<forall>j. 0 \<le> j \<and> j < k \<longrightarrow> isl (up j (model c) ?q)) \<longrightarrow>
        fst (GenerateInsight c up h) = (t, None)"
  proof
    assume a: "0 \<le> k \<and> k < maxRetries c \<and> up k (model c) ?q = Inr t
        \<and> (\<forall>j. 0 \<le> j \<and> j < k \<longrightarrow> isl (up j (model c) ?q))"
    have "fst (GenerateContent c up ?q) = (t, None)"
      using a buildInsightPrompt_nonempty [of h]
      by (intro GenerateContent_first_success [of ?q k c up t]) simp_all
    then show "fst (GenerateInsight c up h) = (t, None)"
      by (auto simp: GenerateInsight_def Let_def split: prod.splits)
  qed
  have 10: "(\<forall>k t. up k (model c) ?q = Inr t \<longrightarrow> t \<noteq> []) \<longrightarrow>
        fst (fst (GenerateInsight c up h)) \<noteq> []"
  proof
    assume a: "\<forall>k t. up k (model c) ?q = Inr t \<longrightarrow> t \<noteq> []"
    from GenerateContent_result [of c up ?q] a
    have "snd (fst (GenerateContent c up ?q)) \<noteq> None
          \<or> fst (fst (GenerateContent c up ?q)) \<noteq> []"
      by force
    then show "fst (fst (GenerateInsight c up h)) \<noteq> []"
      using getFallbackInsight_nonempty
      by (auto simp: GenerateInsight_def Let_def split: prod.splits)
  qed
  from 1 2 3 4 5 6 7 8 9 10 11 getFallbackChatResponse_nonempty [of z]
    getFallbackInsight_nonempty fallbacks_keys
  show ?thesis by blast
qed

theorem fallback_coverage_witness:
  "fst (GenerateChatResponse client down ''Leo'' ''hi'')
     = (''Halo! Ada yang bisa aku bantu hari ini?'', None)
   \<and> fst (GenerateChatResponse client down ''Ophiuchus'' ''hi'')
     = (''Halo! Ada yang bisa aku bantu? Cerita aja santai.'', None)
   \<and> fst (GenerateInsight client down ''A: hi'') = (getFallbackInsight, None)
   \<and> fst (GenerateChatResponse client
        (\<lambda>attempt m p. if attempt = 1 then Inr ''halo'' else down attempt m p) ''Leo'' ''hi'')
     = (''halo'', None)
   \<and> fst (GenerateInsight client
        (\<lambda>attempt m p. if attempt = 1 then Inr ''halo'' else down attempt m p) ''A: hi'')
     = (''halo'', None)"
proof -
  let ?up = "\<lambda>attempt m p. if attempt = 1 then Inr ''halo'' else down attempt m p"
  have d: "\<forall>j. 0 \<le> j \<and> j < maxRetries client \<longrightarrow> isl (down j (model client) p)" for p
    by (simp add: down_def)
  have l: "''Leo'' \<in> set zodiacSigns" "''Ophiuchus'' \<notin> set zodiacSigns"
    by (simp_all add: zodiacSigns_def)
  have f: "getFallbackChatResponse ''Leo'' = ''Halo! Ada yang bisa aku bantu hari ini?''"
    by (simp add: getFallbackChatResponse_def fallbacks_def)
  have u: "(0::int) \<le> 1 \<and> 1 < maxRetries client \<and> ?up 1 (model client) p = Inr ''halo''
      \<and> (\<forall>j. 0 \<le> j \<and> j < 1 \<longrightarrow> isl (?up j (model client) p))" for p
    by (simp add: client_def down_def)
  have a: "fst (GenerateChatResponse client down ''Leo'' ''hi'')
      = (''Halo! Ada yang bisa aku bantu hari ini?'', None)"
    using d l f
      fallback_coverage [where c = client and up = down and z = "''Leo''" and m = "''hi''"]
    by (simp add: prod_eq_iff)
  have b: "fst (GenerateChatResponse client down ''Ophiuchus'' ''hi'')
      = (''Halo! Ada yang bisa aku bantu? Cerita aja santai.'', None)"
    using d l
      fallback_coverage [where c = client and up = down and z = "''Ophiuchus''" and m = "''hi''"]
    by (simp add: prod_eq_iff)
  have c: "fst (GenerateInsight client down ''A: hi'') = (getFallbackInsight, None)"
    using d fallback_coverage [where c = client and up = down and h = "''A: hi''"]
    by (simp add: prod_eq_iff)
  have e: "fst (GenerateChatResponse client ?up ''Leo'' ''hi'') = (''halo'', None)"
    using u [of "buildChatPrompt ''Leo'' ''hi''"]
      fallback_coverage [where c = client and up = ?up and z = "''Leo''" and m = "''hi''"
        and k = 1 and t = "''halo''"]
    by blast
  have g: "fst (GenerateInsight client ?up ''A: hi'') = (''halo'', None)"
    using u [of "buildInsightPrompt ''A: hi''"]
      fallback_coverage [where c = client and up = ?up and h = "''A: hi''"
        and k = 1 and t = "''halo''"]
    by blast
  from a b c e g show ?thesis by simp
qed

text \<open>
  A provider that answers with an empty text and no error makes \<open>GenerateChatResponse\<close>
  return the empty string.
\<close>

theorem fallback_coverage_counterexample:
  "GenerateChatResponse client blank ''Leo'' ''hi''
     = (([], None),
        [ProviderCall (30 * Second) ''gemini-2.0-flash-exp'' (buildChatPrompt ''Leo'' ''hi'')])
   \<and> fst (fst (GenerateChatResponse client blank ''Leo'' ''hi'')) = []"
proof -
  have "retryLoop client blank (buildChatPrompt ''Leo'' ''hi'') 0
      = (([], None),
         [ProviderCall (30 * Second) (model client) (buildChatPrompt ''Leo'' ''hi'')])"
    by (subst retryLoop.simps) (simp add: client_def blank_def)
  then show ?thesis
    by (simp add: GenerateChatResponse_def GenerateContent_def buildChatPrompt_nonempty
        client_def)
qed

end
